theory Spec2Isabelle
  imports Main "HOL-Library.Signed_Division"
begin

section \<open>Go values: errors and the ways a call can end\<close>

text \<open>
  A Go \<open>error\<close> value of this client is one of: a value made by \<open>errors.New\<close>, a
  \<open>*textproto.Error\<close> carrying the reply code and message, an error handed back by a
  library (the QUIC session, the control stream, \<open>strconv\<close>, \<open>time\<close>), or the package
  variable \<open>errUnsupportedListLine\<close>, which the code compares by identity.
\<close>

datatype error =
    ErrorsNew string
  | TextprotoError int string
  | LibraryError string
  | errUnsupportedListLine

text \<open>
  A call ends by returning a value with a nil error (\<open>Ok\<close>), by returning a non-nil
  error (\<open>Err\<close>), by a run-time panic (index or slice bounds out of range), or not at
  all because it waits for the peer (\<open>Blocked\<close>).
\<close>

datatype 'a result = Ok 'a | Err error | Panic | Blocked

section \<open>The session and its pending-receive-streams map\<close>

text \<open>
  A receive stream as the client sees it: its QUIC stream ID, and what a
  \<open>bufio.Scanner\<close> over it yields (the lines, then the value of \<open>scanner.Err()\<close>).
\<close>

record Stream =
  StreamID :: int
  scanLines :: "string list"
  scanErr :: "error option"

text \<open>
  The calls a sub-connection makes on the session's mutex and on the QUIC session are
  logged in the order they are made.
\<close>

datatype call = MutexLock | MutexUnlock | AcceptUniStream | OpenUniStreamSync

text \<open>
  \<open>ServerConn\<close> of package \<open>ftpq\<close>. The QUIC session is the peer's side of the
  conversation: the outcomes of the successive \<open>AcceptUniStream\<close> and
  \<open>OpenUniStreamSync\<close> calls, in order; a call made when none is left waits for ever.
\<close>

record ServerConn =
  dataRetriveStreams :: "int \<rightharpoonup> Stream"
  acceptResults :: "(error + Stream) list"
  openResults :: "(error + Stream) list"
  calls :: "call list"

definition lostStream :: error where
  "lostStream = ErrorsNew ''Could not get wanted stream.''"

text \<open>
  The \<open>for\<close> loop of \<open>getDataRetriveStream\<close> (lines 206 to 220): look the wanted ID up
  and, when it is there, delete and return it; otherwise accept the next stream, file
  it under its own ID, give up when its ID is larger than the wanted one, and go round
  again.
\<close>

fun retrieveLoop ::
  "int \<Rightarrow> (int \<rightharpoonup> Stream) \<Rightarrow> (error + Stream) list \<Rightarrow> call list
    \<Rightarrow> Stream result \<times> (int \<rightharpoonup> Stream) \<times> (error + Stream) list \<times> call list" where
  "retrieveLoop streamID m [] cs =
     (case m streamID of
        Some stream \<Rightarrow> (Ok stream, m(streamID := None), [], cs)
      | None \<Rightarrow> (Blocked, m, [], cs @ [AcceptUniStream]))"
| "retrieveLoop streamID m (r # rs) cs =
     (case m streamID of
        Some stream \<Rightarrow> (Ok stream, m(streamID := None), r # rs, cs)
      | None \<Rightarrow>
          (case r of
             Inl err \<Rightarrow> (Err err, m, rs, cs @ [AcceptUniStream])
           | Inr stream \<Rightarrow>
               if StreamID stream > streamID
               then (Err lostStream, m(StreamID stream \<mapsto> stream), rs, cs @ [AcceptUniStream])
               else retrieveLoop streamID (m(StreamID stream \<mapsto> stream)) rs
                      (cs @ [AcceptUniStream])))"

text \<open>
  \<open>getDataRetriveStream\<close>: lock the mutex, run the loop, and unlock when the function
  returns (the deferred \<open>Unlock\<close>); a call that never returns never unlocks. The
  method reads and writes nothing of its sub-connection but the session, so it is
  given the session.
\<close>

definition getDataRetriveStream :: "int \<Rightarrow> ServerConn \<Rightarrow> Stream result \<times> ServerConn" where
  "getDataRetriveStream streamID c =
     (case retrieveLoop streamID (dataRetriveStreams c) (acceptResults c)
             (calls c @ [MutexLock]) of
        (r, m, rs, cs) \<Rightarrow>
          (r, c\<lparr>dataRetriveStreams := m, acceptResults := rs,
                calls := (if r = Blocked then cs else cs @ [MutexUnlock])\<rparr>))"

section \<open>The rendezvous as the specification words it\<close>

text \<open>
  The specification's algorithm: when the map holds the wanted ID, remove the entry and
  return its stream. Otherwise accept streams one after the other: the one with the
  wanted ID is returned, one with a smaller ID is filed in the map under its ID and the
  loop goes on, and the first one with a larger ID ends the call with the lost-stream
  error. An accept that fails ends the call with that transport failure.
\<close>

fun specAcceptLoop ::
  "int \<Rightarrow> (int \<rightharpoonup> Stream) \<Rightarrow> (error + Stream) list \<Rightarrow> Stream result \<times> (int \<rightharpoonup> Stream)" where
  "specAcceptLoop S m [] = (Blocked, m)"
| "specAcceptLoop S m (Inl e # rs) = (Err e, m)"
| "specAcceptLoop S m (Inr st # rs) =
     (if StreamID st = S then (Ok st, m)
      else if StreamID st < S then specAcceptLoop S (m(StreamID st \<mapsto> st)) rs
      else (Err lostStream, m))"

definition specRendezvous :: "int \<Rightarrow> (int \<rightharpoonup> Stream) \<Rightarrow> (error + Stream) list
    \<Rightarrow> Stream result \<times> (int \<rightharpoonup> Stream)" where
  "specRendezvous S m rs =
     (case m S of
        Some st \<Rightarrow> (Ok st, m(S := None))
      | None \<Rightarrow> specAcceptLoop S m rs)"

section \<open>The rendezvous loop refines the specification's algorithm\<close>

lemma retrieveLoop_present:
  "m S = Some st \<Longrightarrow> retrieveLoop S m rs cs = (Ok st, m(S := None), rs, cs)"
  by (cases rs) simp_all

lemma retrieveLoop_acceptUntil_result:
  "m S = None \<Longrightarrow> fst (retrieveLoop S m rs cs) = fst (specAcceptLoop S m rs)"
proof (induction rs arbitrary: m cs)
  case Nil
  then show ?case by simp
next
  case (Cons r rs)
  show ?case
  proof (cases r)
    case (Inl e)
    with Cons.prems show ?thesis by simp
  next
    case (Inr st)
    consider (eq) "StreamID st = S" | (lt) "StreamID st < S" | (gt) "StreamID st > S"
      by linarith
    then show ?thesis
    proof cases
      case eq
      have "(m(StreamID st \<mapsto> st)) S = Some st" using eq by simp
      then have "retrieveLoop S (m(StreamID st \<mapsto> st)) rs (cs @ [AcceptUniStream])
                   = (Ok st, (m(StreamID st \<mapsto> st))(S := None), rs, cs @ [AcceptUniStream])"
        by (rule retrieveLoop_present)
      with Cons.prems Inr eq show ?thesis by simp
    next
      case lt
      then have "(m(StreamID st \<mapsto> st)) S = None" using Cons.prems by simp
      then have "fst (retrieveLoop S (m(StreamID st \<mapsto> st)) rs (cs @ [AcceptUniStream]))
                   = fst (specAcceptLoop S (m(StreamID st \<mapsto> st)) rs)"
        by (rule Cons.IH)
      with Cons.prems Inr lt show ?thesis by simp
    next
      case gt
      with Cons.prems Inr show ?thesis by simp
    qed
  qed
qed

lemma retrieveLoop_acceptUntil_map:
  "m S = None \<Longrightarrow>
   fst (retrieveLoop S m rs cs) = Err lostStream \<or>
   fst (snd (retrieveLoop S m rs cs)) = snd (specAcceptLoop S m rs)"
proof (induction rs arbitrary: m cs)
  case Nil
  then show ?case by simp
next
  case (Cons r rs)
  show ?case
  proof (cases r)
    case (Inl e)
    with Cons.prems show ?thesis by simp
  next
    case (Inr st)
    consider (eq) "StreamID st = S" | (lt) "StreamID st < S" | (gt) "StreamID st > S"
      by linarith
    then show ?thesis
    proof cases
      case eq
      have "(m(StreamID st \<mapsto> st)) S = Some st" using eq by simp
      then have "retrieveLoop S (m(StreamID st \<mapsto> st)) rs (cs @ [AcceptUniStream])
                   = (Ok st, (m(StreamID st \<mapsto> st))(S := None), rs, cs @ [AcceptUniStream])"
        by (rule retrieveLoop_present)
      with Cons.prems Inr eq show ?thesis
        by (simp add: fun_upd_idem)
    next
      case lt
      then have "(m(StreamID st \<mapsto> st)) S = None" using Cons.prems by simp
      then have "fst (retrieveLoop S (m(StreamID st \<mapsto> st)) rs (cs @ [AcceptUniStream]))
                   = Err lostStream
                 \<or> fst (snd (retrieveLoop S (m(StreamID st \<mapsto> st)) rs
                        (cs @ [AcceptUniStream])))
                   = snd (specAcceptLoop S (m(StreamID st \<mapsto> st)) rs)"
        by (rule Cons.IH)
      with Cons.prems Inr lt show ?thesis by simp
    next
      case gt
      with Cons.prems Inr show ?thesis by simp
    qed
  qed
qed

text \<open>
  C1. For every requested stream ID \<open>S\<close>, every pending map and every sequence of
  accept outcomes, \<open>getDataRetriveStream\<close> returns what the rendezvous algorithm
  prescribes: the stream filed under \<open>S\<close> when there is one (the entry being removed);
  otherwise the accepted stream with ID \<open>S\<close>, after filing every stream with a smaller
  ID accepted before it; and the lost-stream error at the first accepted stream with a
  larger ID. Unless the call ends with the lost-stream error, the map it leaves is the
  algorithm's map as well.
\<close>

theorem getDataRetriveStream_rendezvous:
  "fst (getDataRetriveStream S c) = fst (specRendezvous S (dataRetriveStreams c) (acceptResults c))
   \<and> (fst (getDataRetriveStream S c) = Err lostStream
      \<or> dataRetriveStreams (snd (getDataRetriveStream S c))
          = snd (specRendezvous S (dataRetriveStreams c) (acceptResults c)))"
proof (cases "dataRetriveStreams c S")
  case None
  have r: "fst (retrieveLoop S (dataRetriveStreams c) (acceptResults c) (calls c @ [MutexLock]))
           = fst (specAcceptLoop S (dataRetriveStreams c) (acceptResults c))"
    using None by (rule retrieveLoop_acceptUntil_result)
  have m: "fst (retrieveLoop S (dataRetriveStreams c) (acceptResults c) (calls c @ [MutexLock]))
             = Err lostStream
           \<or> fst (snd (retrieveLoop S (dataRetriveStreams c) (acceptResults c)
                  (calls c @ [MutexLock])))
             = snd (specAcceptLoop S (dataRetriveStreams c) (acceptResults c))"
    using None by (rule retrieveLoop_acceptUntil_map)
  from r m None show ?thesis
    by (auto simp: getDataRetriveStream_def specRendezvous_def split: prod.splits)
next
  case (Some st)
  then have "retrieveLoop S (dataRetriveStreams c) (acceptResults c) (calls c @ [MutexLock])
               = (Ok st, (dataRetriveStreams c)(S := None), acceptResults c, calls c @ [MutexLock])"
    by (rule retrieveLoop_present)
  with Some show ?thesis
    by (simp add: getDataRetriveStream_def specRendezvous_def)
qed


section \<open>What the rendezvous loop leaves in the map\<close>

text \<open>The streams among a sequence of accept outcomes.\<close>

fun streamsOf :: "(error + Stream) list \<Rightarrow> Stream list" where
  "streamsOf [] = []"
| "streamsOf (Inl e # rs) = streamsOf rs"
| "streamsOf (Inr st # rs) = st # streamsOf rs"

text \<open>Filing streams in a map, one after the other, each under its own ID.\<close>

fun fileAll :: "(int \<rightharpoonup> Stream) \<Rightarrow> Stream list \<Rightarrow> (int \<rightharpoonup> Stream)" where
  "fileAll m [] = m"
| "fileAll m (st # sts) = fileAll (m(StreamID st \<mapsto> st)) sts"

text \<open>The accept outcomes a call has used up: those of \<open>c\<close> that \<open>c'\<close> no longer has.\<close>

definition consumed :: "ServerConn \<Rightarrow> ServerConn \<Rightarrow> (error + Stream) list" where
  "consumed c c' = take (length (acceptResults c) - length (acceptResults c')) (acceptResults c)"

text \<open>Every entry of the map is filed under the ID of its stream.\<close>

definition keysMatch :: "(int \<rightharpoonup> Stream) \<Rightarrow> bool" where
  "keysMatch m = (\<forall>k st. m k = Some st \<longrightarrow> StreamID st = k)"

fun isOk :: "'a result \<Rightarrow> bool" where
  "isOk (Ok x) = True"
| "isOk r = False"

lemma fileAll_append: "fileAll m (xs @ ys) = fileAll (fileAll m xs) ys"
  by (induction xs arbitrary: m) simp_all

lemma streamsOf_append: "streamsOf (xs @ ys) = streamsOf xs @ streamsOf ys"
proof (induction xs)
  case Nil
  then show ?case by simp
next
  case (Cons r xs)
  then show ?case by (cases r) simp_all
qed

lemma keysMatch_upd: "keysMatch m \<Longrightarrow> keysMatch (m(StreamID st \<mapsto> st))"
  by (simp add: keysMatch_def)

lemma keysMatch_del: "keysMatch m \<Longrightarrow> keysMatch (m(k := None))"
  by (simp add: keysMatch_def)

lemma keysMatch_fileAll: "keysMatch m \<Longrightarrow> keysMatch (fileAll m sts)"
  by (induction sts arbitrary: m) (simp_all add: keysMatch_upd)

lemma fileAll_last: "sts \<noteq> [] \<Longrightarrow> fileAll m sts (StreamID (last sts)) = Some (last sts)"
proof (induction sts arbitrary: m)
  case Nil
  then show ?case by simp
next
  case (Cons st sts)
  then show ?case by (cases sts) simp_all
qed

text \<open>
  One run of the loop: it uses up a prefix of the accept outcomes, files every stream
  of that prefix, and takes the wanted entry out again when it returns a stream. When
  it gives up on a stream, that stream is the last one accepted and its ID is larger
  than the wanted one.
\<close>

lemma retrieveLoop_files:
  "retrieveLoop S m rs cs = (r, m', rs', cs') \<Longrightarrow>
   \<exists>pre. rs = pre @ rs'
     \<and> m' = (if isOk r then (fileAll m (streamsOf pre))(S := None)
             else fileAll m (streamsOf pre))
     \<and> (pre = [] \<longrightarrow> isOk r \<or> r = Blocked)
     \<and> (\<forall>st. pre \<noteq> [] \<and> last pre = Inr st \<and> r = Err lostStream \<longrightarrow> S < StreamID st)"
proof (induction rs arbitrary: m cs)
  case Nil
  then show ?case by (auto split: option.splits)
next
  case (Cons a rs)
  show ?case
  proof (cases "m S")
    case (Some st)
    with Cons.prems show ?thesis by auto
  next
    case None
    show ?thesis
    proof (cases a)
      case (Inl e)
      with None Cons.prems have "a # rs = [a] @ rs'" "m' = m" "r = Err e" by auto
      with Inl show ?thesis by (intro exI [of _ "[a]"]) simp
    next
      case (Inr st)
      show ?thesis
      proof (cases "S < StreamID st")
        case True
        with None Inr Cons.prems
        have "a # rs = [a] @ rs'" "m' = m(StreamID st \<mapsto> st)" "r = Err lostStream" by auto
        with Inr True show ?thesis by (intro exI [of _ "[a]"]) simp
      next
        case False
        with None Inr Cons.prems
        have "retrieveLoop S (m(StreamID st \<mapsto> st)) rs (cs @ [AcceptUniStream]) = (r, m', rs', cs')"
          by simp
        then have "\<exists>pre. rs = pre @ rs'
            \<and> m' = (if isOk r then (fileAll (m(StreamID st \<mapsto> st)) (streamsOf pre))(S := None)
                   else fileAll (m(StreamID st \<mapsto> st)) (streamsOf pre))
            \<and> (pre = [] \<longrightarrow> isOk r \<or> r = Blocked)
            \<and> (\<forall>st. pre \<noteq> [] \<and> last pre = Inr st \<and> r = Err lostStream \<longrightarrow> S < StreamID st)"
          by (rule Cons.IH)
        then obtain pre where
          pre: "rs = pre @ rs'"
            "m' = (if isOk r then (fileAll (m(StreamID st \<mapsto> st)) (streamsOf pre))(S := None)
                   else fileAll (m(StreamID st \<mapsto> st)) (streamsOf pre))"
            "pre = [] \<longrightarrow> isOk r \<or> r = Blocked"
            "\<forall>st. pre \<noteq> [] \<and> last pre = Inr st \<and> r = Err lostStream \<longrightarrow> S < StreamID st"
          by blast
        have "a # rs = (a # pre) @ rs'" using pre(1) by simp
        moreover have "m' = (if isOk r then (fileAll m (streamsOf (a # pre)))(S := None)
                   else fileAll m (streamsOf (a # pre)))"
          using pre(2) Inr by simp
        moreover have "\<forall>st. a # pre \<noteq> [] \<and> last (a # pre) = Inr st \<and> r = Err lostStream
                   \<longrightarrow> S < StreamID st"
          using pre(3,4) by auto
        ultimately show ?thesis by blast
      qed
    qed
  qed
qed

lemma streamsOf_last:
  "pre \<noteq> [] \<Longrightarrow> last pre = Inr st \<Longrightarrow> streamsOf pre \<noteq> [] \<and> last (streamsOf pre) = st"
proof -
  assume "pre \<noteq> []" and "last pre = Inr st"
  then have "pre = butlast pre @ [Inr st]" by (metis append_butlast_last_id)
  then have "streamsOf pre = streamsOf (butlast pre) @ [st]"
    by (metis streamsOf_append streamsOf.simps(1) streamsOf.simps(3))
  then show ?thesis by simp
qed

lemma getDataRetriveStream_unfold:
  "getDataRetriveStream S c = (r, c') \<Longrightarrow>
   \<exists>cs'. retrieveLoop S (dataRetriveStreams c) (acceptResults c) (calls c @ [MutexLock])
           = (r, dataRetriveStreams c', acceptResults c', cs')
         \<and> calls c' = (if r = Blocked then cs' else cs' @ [MutexUnlock])"
  by (auto simp: getDataRetriveStream_def split: prod.splits)

text \<open>Sample values: three server streams and a session that has accepted nothing yet.\<close>

definition stream3 :: Stream where
  "stream3 = \<lparr>StreamID = 3, scanLines = [], scanErr = None\<rparr>"

definition stream7 :: Stream where
  "stream7 = \<lparr>StreamID = 7, scanLines = [], scanErr = None\<rparr>"

definition stream11 :: Stream where
  "stream11 = \<lparr>StreamID = 11, scanLines = [], scanErr = None\<rparr>"

definition freshConn :: "(error + Stream) list \<Rightarrow> ServerConn" where
  "freshConn rs = \<lparr>dataRetriveStreams = Map.empty, acceptResults = rs, openResults = [], calls = []\<rparr>"

text \<open>
  C10. Every stream accepted inside \<open>getDataRetriveStream\<close> is filed in the
  pending-receive-streams map under its own ID before the call ends: the map the call
  leaves is the map it found with every accepted stream filed in order, less the
  wanted entry when the call returns a stream. Hence a map whose every key is the ID of
  its stream stays such a map, and when the call gives up on a stream whose ID is larger
  than the wanted one, that stream is in the map under its ID afterwards.
\<close>

theorem getDataRetriveStream_files_accepted:
  assumes "getDataRetriveStream S c = (r, c')"
  shows "acceptResults c = consumed c c' @ acceptResults c'
    \<and> dataRetriveStreams c' =
        (if isOk r then (fileAll (dataRetriveStreams c) (streamsOf (consumed c c')))(S := None)
         else fileAll (dataRetriveStreams c) (streamsOf (consumed c c')))
    \<and> (keysMatch (dataRetriveStreams c) \<longrightarrow> keysMatch (dataRetriveStreams c'))
    \<and> (\<forall>st. consumed c c' \<noteq> [] \<and> last (consumed c c') = Inr st \<and> r = Err lostStream
          \<longrightarrow> S < StreamID st \<and> dataRetriveStreams c' (StreamID st) = Some st)"
proof -
  from getDataRetriveStream_unfold [OF assms] obtain cs' where
    "retrieveLoop S (dataRetriveStreams c) (acceptResults c) (calls c @ [MutexLock])
       = (r, dataRetriveStreams c', acceptResults c', cs')"
    by blast
  then have "\<exists>pre. acceptResults c = pre @ acceptResults c'
     \<and> dataRetriveStreams c' =
         (if isOk r then (fileAll (dataRetriveStreams c) (streamsOf pre))(S := None)
          else fileAll (dataRetriveStreams c) (streamsOf pre))
     \<and> (pre = [] \<longrightarrow> isOk r \<or> r = Blocked)
     \<and> (\<forall>st. pre \<noteq> [] \<and> last pre = Inr st \<and> r = Err lostStream \<longrightarrow> S < StreamID st)"
    by (rule retrieveLoop_files)
  then obtain pre where pre: "acceptResults c = pre @ acceptResults c'"
    and m': "dataRetriveStreams c' =
         (if isOk r then (fileAll (dataRetriveStreams c) (streamsOf pre))(S := None)
          else fileAll (dataRetriveStreams c) (streamsOf pre))"
    and lost: "\<forall>st. pre \<noteq> [] \<and> last pre = Inr st \<and> r = Err lostStream \<longrightarrow> S < StreamID st"
    by blast
  have cons: "consumed c c' = pre"
    using pre by (simp add: consumed_def)
  have keys: "keysMatch (dataRetriveStreams c) \<longrightarrow> keysMatch (dataRetriveStreams c')"
    using m' by (simp add: keysMatch_fileAll keysMatch_del)
  have filed: "S < StreamID st \<and> dataRetriveStreams c' (StreamID st) = Some st"
    if "pre \<noteq> []" "last pre = Inr st" "r = Err lostStream" for st
  proof -
    from that lost have "S < StreamID st" by blast
    moreover from streamsOf_last [OF that(1,2)]
    have "fileAll (dataRetriveStreams c) (streamsOf pre) (StreamID st) = Some st"
      using fileAll_last [of "streamsOf pre" "dataRetriveStreams c"] by simp
    ultimately show ?thesis using m' that(3) by simp
  qed
  from pre m' keys filed show ?thesis unfolding cons by blast
qed

theorem getDataRetriveStream_files_accepted_witness:
  "getDataRetriveStream 7 (freshConn [Inr stream3, Inr stream11])
     = (Err lostStream,
        \<lparr>dataRetriveStreams = [3 \<mapsto> stream3, 11 \<mapsto> stream11], acceptResults = [],
         openResults = [], calls = [MutexLock, AcceptUniStream, AcceptUniStream, MutexUnlock]\<rparr>)
   \<and> keysMatch [3 \<mapsto> stream3, 11 \<mapsto> stream11]
   \<and> (7::int) < StreamID stream11
   \<and> [3 \<mapsto> stream3, 11 \<mapsto> stream11] (StreamID stream11) = Some stream11"
proof -
  let ?c = "freshConn [Inr stream3, Inr stream11]"
  let ?c' = "\<lparr>dataRetriveStreams = [3 \<mapsto> stream3, 11 \<mapsto> stream11], acceptResults = [],
         openResults = [], calls = [MutexLock, AcceptUniStream, AcceptUniStream, MutexUnlock]\<rparr>"
  have run: "getDataRetriveStream 7 ?c = (Err lostStream, ?c')"
    by (simp add: getDataRetriveStream_def freshConn_def stream3_def stream11_def)
  have k0: "keysMatch (dataRetriveStreams ?c)"
    by (simp add: keysMatch_def freshConn_def)
  have cons: "consumed ?c ?c' = [Inr stream3, Inr stream11]"
    by (simp add: consumed_def freshConn_def)
  note th = getDataRetriveStream_files_accepted [OF run]
  from th k0 have "keysMatch (dataRetriveStreams ?c')" by blast
  then have k: "keysMatch [3 \<mapsto> stream3, 11 \<mapsto> stream11]" by simp
  from th have "consumed ?c ?c' \<noteq> [] \<and> last (consumed ?c ?c') = Inr stream11
        \<and> Err lostStream = Err lostStream
      \<longrightarrow> 7 < StreamID stream11 \<and> dataRetriveStreams ?c' (StreamID stream11) = Some stream11"
    by blast
  then have "7 < StreamID stream11 \<and> dataRetriveStreams ?c' (StreamID stream11) = Some stream11"
    unfolding cons by simp
  then have "7 < StreamID stream11
      \<and> [3 \<mapsto> stream3, 11 \<mapsto> stream11] (StreamID stream11) = Some stream11"
    by simp
  with run k show ?thesis by blast
qed

section \<open>The mutex and the accept calls\<close>

text \<open>
  For each \<open>AcceptUniStream\<close> call of a log, whether the mutex was held when the call
  was made; the flag says whether it is held where the log starts.
\<close>

fun heldAtAccepts :: "bool \<Rightarrow> call list \<Rightarrow> bool list" where
  "heldAtAccepts held [] = []"
| "heldAtAccepts held (MutexLock # cs) = heldAtAccepts True cs"
| "heldAtAccepts held (MutexUnlock # cs) = heldAtAccepts False cs"
| "heldAtAccepts held (AcceptUniStream # cs) = held # heldAtAccepts held cs"
| "heldAtAccepts held (OpenUniStreamSync # cs) = heldAtAccepts held cs"

text \<open>The calls a run has added to the log.\<close>

definition newCalls :: "ServerConn \<Rightarrow> ServerConn \<Rightarrow> call list" where
  "newCalls c c' = drop (length (calls c)) (calls c')"

lemma retrieveLoop_calls:
  "retrieveLoop S m rs cs = (r, m', rs', cs') \<Longrightarrow>
   \<exists>n. cs' = cs @ replicate n AcceptUniStream"
proof (induction rs arbitrary: m cs)
  case Nil
  then show ?case
    by (cases "m S") (auto intro: exI [of _ 0] exI [of _ 1])
next
  case (Cons a rs)
  show ?case
  proof (cases "m S")
    case (Some st)
    with Cons.prems show ?thesis by (auto intro: exI [of _ 0])
  next
    case None
    show ?thesis
    proof (cases a)
      case (Inl e)
      with None Cons.prems show ?thesis by (auto intro: exI [of _ 1])
    next
      case (Inr st)
      show ?thesis
      proof (cases "S < StreamID st")
        case True
        with None Inr Cons.prems show ?thesis by (auto intro: exI [of _ 1])
      next
        case False
        with None Inr Cons.prems
        have "retrieveLoop S (m(StreamID st \<mapsto> st)) rs (cs @ [AcceptUniStream]) = (r, m', rs', cs')"
          by simp
        then have "\<exists>n. cs' = (cs @ [AcceptUniStream]) @ replicate n AcceptUniStream"
          by (rule Cons.IH)
        then obtain n where "cs' = cs @ replicate (Suc n) AcceptUniStream" by auto
        then show ?thesis by blast
      qed
    qed
  qed
qed

lemma heldAtAccepts_replicate:
  "heldAtAccepts held (replicate n AcceptUniStream @ cs) = replicate n held @ heldAtAccepts held cs"
  by (induction n) simp_all

text \<open>
  C4, as the code has it. \<open>getDataRetriveStream\<close> locks the session mutex once on entry
  and unlocks it only on return: every \<open>AcceptUniStream\<close> call of its rendezvous loop
  is made while the mutex is held, and the mutex is neither released before an accept
  nor taken again after it.
\<close>

theorem getDataRetriveStream_accepts_under_lock:
  assumes "getDataRetriveStream S c = (r, c')"
  shows "\<exists>n. newCalls c c' =
            MutexLock # replicate n AcceptUniStream @ (if r = Blocked then [] else [MutexUnlock])
          \<and> heldAtAccepts False (newCalls c c') = replicate n True"
proof -
  from getDataRetriveStream_unfold [OF assms] obtain cs' where
    run: "retrieveLoop S (dataRetriveStreams c) (acceptResults c) (calls c @ [MutexLock])
       = (r, dataRetriveStreams c', acceptResults c', cs')"
    and cs: "calls c' = (if r = Blocked then cs' else cs' @ [MutexUnlock])"
    by blast
  from run have "\<exists>n. cs' = (calls c @ [MutexLock]) @ replicate n AcceptUniStream"
    by (rule retrieveLoop_calls)
  then obtain n where n: "cs' = (calls c @ [MutexLock]) @ replicate n AcceptUniStream"
    by blast
  have new: "newCalls c c' =
      MutexLock # replicate n AcceptUniStream @ (if r = Blocked then [] else [MutexUnlock])"
    using cs n by (simp add: newCalls_def)
  have "heldAtAccepts False (newCalls c c') = replicate n True"
    unfolding new by (simp add: heldAtAccepts_replicate)
  with new show ?thesis by blast
qed

theorem getDataRetriveStream_accepts_under_lock_witness:
  "getDataRetriveStream 7 (freshConn [Inr stream3, Inr stream7])
     = (Ok stream7,
        \<lparr>dataRetriveStreams = [3 \<mapsto> stream3], acceptResults = [],
         openResults = [], calls = [MutexLock, AcceptUniStream, AcceptUniStream, MutexUnlock]\<rparr>)
   \<and> heldAtAccepts False [MutexLock, AcceptUniStream, AcceptUniStream, MutexUnlock] = [True, True]"
proof -
  let ?c = "freshConn [Inr stream3, Inr stream7]"
  let ?c' = "\<lparr>dataRetriveStreams = [3 \<mapsto> stream3], acceptResults = [],
         openResults = [], calls = [MutexLock, AcceptUniStream, AcceptUniStream, MutexUnlock]\<rparr>"
  have run: "getDataRetriveStream 7 ?c = (Ok stream7, ?c')"
    by (simp add: getDataRetriveStream_def freshConn_def stream3_def stream7_def fun_upd_twist)
  have new: "newCalls ?c ?c' = [MutexLock, AcceptUniStream, AcceptUniStream, MutexUnlock]"
    by (simp add: newCalls_def freshConn_def)
  from getDataRetriveStream_accepts_under_lock [OF run] obtain n where
    "heldAtAccepts False (newCalls ?c ?c') = replicate n True" by blast
  with new run show ?thesis by simp
qed

text \<open>
  The claim as the specification states it (the mutex is released before each accept)
  fails on the smallest rendezvous: nothing pending, stream 3 wanted, stream 3 accepted.
  The one accept call is made with the mutex held.
\<close>

theorem accept_while_mutex_held:
  "heldAtAccepts False (newCalls (freshConn [Inr stream3])
      (snd (getDataRetriveStream 3 (freshConn [Inr stream3])))) = [True]"
  by (simp add: getDataRetriveStream_def freshConn_def stream3_def newCalls_def)

section \<open>Go strings\<close>

text \<open>
  A Go string is a sequence of bytes. The functions below are those of packages
  \<open>strings\<close> and \<open>strconv\<close> that the client calls, with the separators it passes (all of
  them one byte long); indices are Go \<open>int\<close>s, and \<open>-1\<close> says "not found".
\<close>

fun Index :: "string \<Rightarrow> char \<Rightarrow> int" where
  "Index [] c = -1"
| "Index (x # xs) c = (if x = c then 0 else (let i = Index xs c in if i < 0 then -1 else i + 1))"

definition LastIndex :: "string \<Rightarrow> char \<Rightarrow> int" where
  "LastIndex s c = (let i = Index (rev s) c in if i < 0 then -1 else int (length s) - 1 - i)"

text \<open>
  The slice expression \<open>s[lo:hi]\<close>: it panics unless \<open>0 \<le> lo \<le> hi \<le> len(s)\<close>; \<open>None\<close>
  is the panic. \<open>s[lo:]\<close> is \<open>s[lo:len(s)]\<close> and \<open>s[:hi]\<close> is \<open>s[0:hi]\<close>.
\<close>

definition slice :: "'a list \<Rightarrow> int \<Rightarrow> int \<Rightarrow> 'a list option" where
  "slice s lo hi =
     (if 0 \<le> lo \<and> lo \<le> hi \<and> hi \<le> int (length s)
      then Some (take (nat (hi - lo)) (drop (nat lo) s)) else None)"

definition sliceFrom :: "'a list \<Rightarrow> int \<Rightarrow> 'a list option" where
  "sliceFrom s lo = slice s lo (int (length s))"

definition sliceTo :: "'a list \<Rightarrow> int \<Rightarrow> 'a list option" where
  "sliceTo s hi = slice s 0 hi"

definition HasPrefix :: "string \<Rightarrow> string \<Rightarrow> bool" where
  "HasPrefix s pre = (length pre \<le> length s \<and> take (length pre) s = pre)"

text \<open>\<open>strings.SplitN(s, sep, 2)\<close>: cut at the first separator, if there is one.\<close>

definition SplitN2 :: "string \<Rightarrow> char \<Rightarrow> string list" where
  "SplitN2 s c =
     (if c \<in> set s then [takeWhile (\<lambda>x. x \<noteq> c) s, tl (dropWhile (\<lambda>x. x \<noteq> c) s)] else [s])"

text \<open>\<open>strings.Split(s, sep)\<close>: cut at every separator.\<close>

fun Split :: "string \<Rightarrow> char \<Rightarrow> string list" where
  "Split [] c = [[]]"
| "Split (x # xs) c =
     (if x = c then [] # Split xs c
      else (case Split xs c of [] \<Rightarrow> [[x]] | p # ps \<Rightarrow> (x # p) # ps))"

fun Join :: "string list \<Rightarrow> string \<Rightarrow> string" where
  "Join [] sep = []"
| "Join [x] sep = x"
| "Join (x # y # ys) sep = x @ sep @ Join (y # ys) sep"

definition TrimLeft :: "string \<Rightarrow> char \<Rightarrow> string" where
  "TrimLeft s c = dropWhile (\<lambda>x. x = c) s"

definition TrimPrefix :: "string \<Rightarrow> string \<Rightarrow> string" where
  "TrimPrefix s pre = (if HasPrefix s pre then drop (length pre) s else s)"

text \<open>
  White space as Unicode defines it (\<open>unicode.IsSpace\<close>), in UTF-8: the six ASCII
  characters tab, line feed, vertical tab, form feed, carriage return and space; U+0085
  and U+00A0; U+1680, U+2000 to U+200A, U+2028, U+2029, U+202F, U+205F and U+3000.
  \<open>spaceWidth s\<close> is the number of bytes of the white-space character \<open>s\<close> starts with,
  and 0 when it starts with none. No byte but the first of such a character can start
  another one, so going through a string byte by byte finds them where Go's decoding
  does.
\<close>

definition asciiSpace :: "char \<Rightarrow> bool" where
  "asciiSpace c = (c \<in> set [CHR 0x09, CHR 0x0A, CHR 0x0B, CHR 0x0C, CHR 0x0D, CHR 0x20])"

definition spaceWidth :: "string \<Rightarrow> nat" where
  "spaceWidth s =
     (case s of
        [] \<Rightarrow> 0
      | a # r1 \<Rightarrow>
          if asciiSpace a then 1
          else (case r1 of
            [] \<Rightarrow> 0
          | b # r2 \<Rightarrow>
              if a = CHR 0xC2 \<and> (b = CHR 0x85 \<or> b = CHR 0xA0) then 2
              else (case r2 of
                [] \<Rightarrow> 0
              | c # r3 \<Rightarrow>
                  if a = CHR 0xE1 \<and> b = CHR 0x9A \<and> c = CHR 0x80 then 3
                  else if a = CHR 0xE2 \<and> b = CHR 0x80
                    \<and> ((0x80 \<le> (of_char c :: int) \<and> (of_char c :: int) \<le> 0x8A)
                       \<or> c = CHR 0xA8 \<or> c = CHR 0xA9 \<or> c = CHR 0xAF) then 3
                  else if a = CHR 0xE2 \<and> b = CHR 0x81 \<and> c = CHR 0x9F then 3
                  else if a = CHR 0xE3 \<and> b = CHR 0x80 \<and> c = CHR 0x80 then 3
                  else 0)))"

lemma spaceWidth_le: "spaceWidth s \<le> length s"
  by (auto simp: spaceWidth_def split: list.splits)

text \<open>Dropping the white space a string starts with.\<close>

function trimLeftSpace :: "string \<Rightarrow> string" where
  "trimLeftSpace s = (if spaceWidth s = 0 then s else trimLeftSpace (drop (spaceWidth s) s))"
  by pat_completeness auto
termination
proof (relation "measure length")
  show "wf (measure length)" by simp
next
  fix s :: string
  assume "spaceWidth s \<noteq> 0"
  moreover have "spaceWidth s \<le> length s" by (rule spaceWidth_le)
  ultimately show "(drop (spaceWidth s) s, s) \<in> measure length" by simp
qed

declare trimLeftSpace.simps [simp del]

text \<open>
  The white-space character a string ends with, if any: its bytes in reverse are what
  the reversed string starts with.
\<close>

definition spaceWidthEnd :: "string \<Rightarrow> nat" where
  "spaceWidthEnd s =
     (if s \<noteq> [] \<and> spaceWidth [last s] = 1 then 1
      else if 2 \<le> length s \<and> spaceWidth (drop (length s - 2) s) = 2 then 2
      else if 3 \<le> length s \<and> spaceWidth (drop (length s - 3) s) = 3 then 3
      else 0)"

lemma spaceWidthEnd_le: "spaceWidthEnd s \<le> length s"
  by (cases s) (simp_all add: spaceWidthEnd_def)

function trimRightSpace :: "string \<Rightarrow> string" where
  "trimRightSpace s =
     (if spaceWidthEnd s = 0 then s else trimRightSpace (take (length s - spaceWidthEnd s) s))"
  by pat_completeness auto
termination
proof (relation "measure length")
  show "wf (measure length)" by simp
next
  fix s :: string
  assume "spaceWidthEnd s \<noteq> 0"
  moreover have "spaceWidthEnd s \<le> length s" by (rule spaceWidthEnd_le)
  ultimately show "(take (length s - spaceWidthEnd s) s, s) \<in> measure length" by simp
qed

declare trimRightSpace.simps [simp del]

definition TrimSpace :: "string \<Rightarrow> string" where
  "TrimSpace s = trimRightSpace (trimLeftSpace s)"

text \<open>
  \<open>strings.Fields\<close>: the maximal runs of bytes between white space. \<open>fieldsFrom s cur\<close>
  goes through \<open>s\<close> with the field begun so far in \<open>cur\<close>.
\<close>

function fieldsFrom :: "string \<Rightarrow> string \<Rightarrow> string list" where
  "fieldsFrom s cur =
     (if s = [] then (if cur = [] then [] else [cur])
      else if spaceWidth s = 0 then fieldsFrom (tl s) (cur @ [hd s])
      else (if cur = [] then [] else [cur]) @ fieldsFrom (drop (spaceWidth s) s) [])"
  by pat_completeness auto
termination
proof (relation "measure (\<lambda>(s, cur). length s)")
  show "wf (measure (\<lambda>(s, cur). length s))" by simp
next
  fix s cur :: string
  assume "s \<noteq> []"
  then show "((tl s, cur @ [hd s]), (s, cur)) \<in> measure (\<lambda>(s, cur). length s)"
    by (cases s) simp_all
next
  fix s cur :: string
  assume "s \<noteq> []" and "spaceWidth s \<noteq> 0"
  then show "((drop (spaceWidth s) s, []), (s, cur)) \<in> measure (\<lambda>(s, cur). length s)"
    by simp
qed

declare fieldsFrom.simps [simp del]

definition Fields :: "string \<Rightarrow> string list" where
  "Fields s = fieldsFrom s []"

text \<open>Decimal digits, and \<open>strconv.Itoa\<close> (which is also what the verb \<open>%d\<close> prints).\<close>

definition isDigit :: "char \<Rightarrow> bool" where
  "isDigit c = (48 \<le> (of_char c :: int) \<and> (of_char c :: int) \<le> 57)"

definition digitVal :: "char \<Rightarrow> int" where
  "digitVal c = of_char c - 48"

definition decimalValue :: "string \<Rightarrow> int" where
  "decimalValue ds = foldl (\<lambda>n c. 10 * n + digitVal c) 0 ds"

definition digitChar :: "int \<Rightarrow> char" where
  "digitChar d = ''0123456789'' ! nat d"

function decDigits :: "int \<Rightarrow> string" where
  "decDigits n =
     (if n < 10 then [digitChar n] else decDigits (n div 10) @ [digitChar (n mod 10)])"
  by pat_completeness auto
termination
  by (relation "measure nat") auto

declare decDigits.simps [simp del]

definition Itoa :: "int \<Rightarrow> string" where
  "Itoa i = (if i < 0 then CHR ''-'' # decDigits (- i) else decDigits i)"

text \<open>
  \<open>strconv.ParseInt(s, 10, 64)\<close>: an optional sign, then one or more decimal digits and
  nothing else; the value must fit an \<open>int64\<close>. The caller only tests the error for
  nil, so its text is not modelled.
\<close>

definition ParseInt :: "string \<Rightarrow> error + int" where
  "ParseInt s =
     (if s = [] then Inl (LibraryError ''invalid syntax'')
      else
        let neg = (hd s = CHR ''-'');
            body = (if hd s = CHR ''+'' \<or> hd s = CHR ''-'' then tl s else s)
        in if body = [] \<or> \<not> list_all isDigit body then Inl (LibraryError ''invalid syntax'')
           else
             let un = decimalValue body
             in if 2 ^ 64 \<le> un then Inl (LibraryError ''value out of range'')
                else if \<not> neg \<and> 2 ^ 63 \<le> un then Inl (LibraryError ''value out of range'')
                else if neg \<and> 2 ^ 63 < un then Inl (LibraryError ''value out of range'')
                else Inr (if neg then - un else un))"

section \<open>The sub-connection and its control stream\<close>

text \<open>
  Modelled from the spec: the file that declares the \<open>Status\<close> constants is not among
  the sources. The specification gives their values: 125 (already open), 150 (about to
  send), 211 (the FEAT reply), 257 (expected of PWD), 350 (expected of REST) and 226
  (closing the data connection).
\<close>

definition StatusAlreadyOpen :: int where "StatusAlreadyOpen = 125"
definition StatusAboutToSend :: int where "StatusAboutToSend = 150"
definition StatusSystem :: int where "StatusSystem = 211"
definition StatusClosingDataConnection :: int where "StatusClosingDataConnection = 226"
definition StatusPathCreated :: int where "StatusPathCreated = 257"
definition StatusRequestFilePending :: int where "StatusRequestFilePending = 350"

text \<open>An argument for a verb of a command format: a string for \<open>%s\<close>, a \<open>uint64\<close> for \<open>%d\<close>.\<close>

datatype arg = StringArg string | UintArg nat

text \<open>
  \<open>ServerSubConn\<close>. The control stream is the server's side of the conversation: for
  the successive \<open>Cmd\<close> calls whether the write fails, and for the successive reads the
  reply that arrives (code and message) or the error of the read. \<open>sent\<close> logs the
  format and arguments of every \<open>Cmd\<close> call, \<open>closed\<close> the IDs of the send streams the
  sub-connection has closed.
\<close>

record ServerSubConn =
  serverConnection :: ServerConn
  features :: "string \<rightharpoonup> string"
  cmdResults :: "error option list"
  responses :: "(error + int \<times> string) list"
  sent :: "(string \<times> arg list) list"
  closed :: "int list"

text \<open>A call that did not return a value ends its caller the same way.\<close>

fun failAs :: "'a result \<Rightarrow> 'b result" where
  "failAs (Err e) = Err e"
| "failAs Blocked = Blocked"
| "failAs r = Panic"

definition Cmd :: "string \<Rightarrow> arg list \<Rightarrow> ServerSubConn \<Rightarrow> unit result \<times> ServerSubConn" where
  "Cmd format args subC =
     (case cmdResults subC of
        [] \<Rightarrow> (Blocked, subC)
      | r # rs \<Rightarrow>
          (case r of None \<Rightarrow> Ok () | Some err \<Rightarrow> Err err,
           subC\<lparr>cmdResults := rs, sent := sent subC @ [(format, args)]\<rparr>))"

text \<open>
  \<open>ReadResponse(expectCode)\<close> of \<open>net/textproto\<close>: an expected code of one, two or three
  digits is compared with the leading digits of the reply's code, and a reply that does
  not match is returned as a \<open>*textproto.Error\<close>; an expected code below 1 matches
  every reply.
\<close>

definition codeMismatch :: "int \<Rightarrow> int \<Rightarrow> bool" where
  "codeMismatch expectCode code =
     ((1 \<le> expectCode \<and> expectCode < 10 \<and> code div 100 \<noteq> expectCode)
      \<or> (10 \<le> expectCode \<and> expectCode < 100 \<and> code div 10 \<noteq> expectCode)
      \<or> (100 \<le> expectCode \<and> expectCode < 1000 \<and> code \<noteq> expectCode))"

definition ReadResponse :: "int \<Rightarrow> ServerSubConn \<Rightarrow> (int \<times> string) result \<times> ServerSubConn" where
  "ReadResponse expectCode subC =
     (case responses subC of
        [] \<Rightarrow> (Blocked, subC)
      | r # rs \<Rightarrow>
          (case r of
             Inl err \<Rightarrow> Err err
           | Inr (code, message) \<Rightarrow>
               if codeMismatch expectCode code then Err (TextprotoError code message)
               else Ok (code, message),
           subC\<lparr>responses := rs\<rparr>))"

definition cmd :: "int \<Rightarrow> string \<Rightarrow> arg list \<Rightarrow> ServerSubConn
    \<Rightarrow> (int \<times> string) result \<times> ServerSubConn" where
  "cmd expected format args subC =
     (case Cmd format args subC of
        (Ok u, s1) \<Rightarrow> ReadResponse expected s1
      | (r, s1) \<Rightarrow> (failAs r, s1))"

subsection \<open>Feat\<close>

text \<open>The body of the loop over the lines of a 211 reply (lines 83 to 97).\<close>

definition featLine :: "(string \<rightharpoonup> string) \<Rightarrow> string \<Rightarrow> (string \<rightharpoonup> string)" where
  "featLine fs line0 =
     (if \<not> HasPrefix line0 '' '' then fs
      else
        let line = TrimSpace line0;
            featureElements = SplitN2 line CHR '' '';
            command = featureElements ! 0;
            commandDesc = (if length featureElements = 2 then featureElements ! 1 else [])
        in fs(command \<mapsto> commandDesc))"

definition Feat :: "ServerSubConn \<Rightarrow> unit result \<times> ServerSubConn" where
  "Feat subC =
     (case cmd (-1) ''FEAT'' [] subC of
        (Ok (code, message), s) \<Rightarrow>
          if code \<noteq> StatusSystem then (Ok (), s)
          else (Ok (), s\<lparr>features := foldl featLine (features s) (Split message CHR 0x0A)\<rparr>)
      | (r, s) \<Rightarrow> (failAs r, s))"

subsection \<open>Data streams\<close>

definition getNewDataSendStream :: "ServerConn \<Rightarrow> Stream result \<times> ServerConn" where
  "getNewDataSendStream c =
     (case openResults c of
        [] \<Rightarrow> (Blocked, c\<lparr>calls := calls c @ [MutexLock, OpenUniStreamSync]\<rparr>)
      | r # rs \<Rightarrow>
          (case r of Inl err \<Rightarrow> Err err | Inr stream \<Rightarrow> Ok stream,
           c\<lparr>openResults := rs, calls := calls c @ [MutexLock, OpenUniStreamSync, MutexUnlock]\<rparr>))"

definition noStreamID :: error where
  "noStreamID = ErrorsNew ''Returnmessage must contain the stream id separated by a blank.''"

definition badStreamID :: error where
  "badStreamID =
     ErrorsNew ''Stream ID has not a valid value for a unidirectional stream from the server.''"

text \<open>
  The \<open>REST\<close> exchange both transfer functions start with when the offset is not zero.
\<close>

definition restOffset :: "nat \<Rightarrow> ServerSubConn \<Rightarrow> unit result \<times> ServerSubConn" where
  "restOffset offset subC =
     (if offset \<noteq> 0
      then (case cmd StatusRequestFilePending ''REST %d'' [UintArg offset] subC of
              (Ok x, s) \<Rightarrow> (Ok (), s)
            | (r, s) \<Rightarrow> (failAs r, s))
      else (Ok (), subC))"

definition cmdDataReceiveStreamFrom :: "nat \<Rightarrow> string \<Rightarrow> arg list \<Rightarrow> ServerSubConn
    \<Rightarrow> Stream result \<times> ServerSubConn" where
  "cmdDataReceiveStreamFrom offset format args subC =
     (case restOffset offset subC of
        (Ok u, s1) \<Rightarrow>
          (case Cmd format args s1 of
             (Ok u, s2) \<Rightarrow>
               (case ReadResponse (-1) s2 of
                  (Ok (code, msg), s3) \<Rightarrow>
                    if code \<noteq> StatusAlreadyOpen \<and> code \<noteq> StatusAboutToSend
                    then (Err (TextprotoError code msg), s3)
                    else
                      let msgParts = SplitN2 msg CHR '' '' in
                      if length msgParts \<noteq> 2 then (Err noStreamID, s3)
                      else
                        (case ParseInt (msgParts ! 0) of
                           Inl err \<Rightarrow> (Err badStreamID, s3)
                         | Inr streamIDUint64 \<Rightarrow>
                             if streamIDUint64 < 0 \<or> streamIDUint64 smod 4 \<noteq> 3
                             then (Err badStreamID, s3)
                             else
                               (case getDataRetriveStream streamIDUint64 (serverConnection s3) of
                                  (r, c) \<Rightarrow> (r, s3\<lparr>serverConnection := c\<rparr>)))
                | (r, s3) \<Rightarrow> (failAs r, s3))
           | (r, s2) \<Rightarrow> (failAs r, s2))
      | (r, s1) \<Rightarrow> (failAs r, s1))"

text \<open>\<open>stream.Close()\<close> on a send stream, as the error paths of the next function call it.\<close>

definition closeStream :: "Stream \<Rightarrow> ServerSubConn \<Rightarrow> ServerSubConn" where
  "closeStream stream subC = subC\<lparr>closed := closed subC @ [StreamID stream]\<rparr>"

definition cmdDataSendStreamFrom :: "nat \<Rightarrow> string \<Rightarrow> arg list \<Rightarrow> ServerSubConn
    \<Rightarrow> Stream result \<times> ServerSubConn" where
  "cmdDataSendStreamFrom offset format args subC =
     (case getNewDataSendStream (serverConnection subC) of
        (Ok stream, c) \<Rightarrow>
          (case restOffset offset (subC\<lparr>serverConnection := c\<rparr>) of
             (Ok u, s1) \<Rightarrow>
               let formatParts = SplitN2 format CHR '' '';
                   format' =
                     (if length formatParts < 2
                      then formatParts ! 0 @ '' '' @ Itoa (StreamID stream)
                      else formatParts ! 0 @ '' '' @ Itoa (StreamID stream) @ '' ''
                             @ formatParts ! 1)
               in
               (case Cmd format' args s1 of
                  (Ok u, s2) \<Rightarrow>
                    (case ReadResponse (-1) s2 of
                       (Ok (code, msg), s3) \<Rightarrow>
                         if code \<noteq> StatusAlreadyOpen \<and> code \<noteq> StatusAboutToSend
                         then (Err (TextprotoError code msg), closeStream stream s3)
                         else (Ok stream, s3)
                     | (Err err, s3) \<Rightarrow> (Err err, closeStream stream s3)
                     | (r, s3) \<Rightarrow> (failAs r, s3))
                | (Err err, s2) \<Rightarrow> (Err err, closeStream stream s2)
                | (r, s2) \<Rightarrow> (failAs r, s2))
           | (Err err, s1) \<Rightarrow> (Err err, closeStream stream s1)
           | (r, s1) \<Rightarrow> (failAs r, s1))
      | (r, c) \<Rightarrow> (failAs r, subC\<lparr>serverConnection := c\<rparr>))"

subsection \<open>CurrentDir\<close>

definition badPwd :: error where
  "badPwd = ErrorsNew ''Unsuported PWD response format''"

definition CurrentDir :: "ServerSubConn \<Rightarrow> string result \<times> ServerSubConn" where
  "CurrentDir subC =
     (case cmd StatusPathCreated ''PWD'' [] subC of
        (Ok (code, msg), s) \<Rightarrow>
          let start = Index msg (CHR 0x22);
              end' = LastIndex msg (CHR 0x22)
          in if start = -1 \<or> end' = -1 then (Err badPwd, s)
             else (case slice msg (start + 1) end' of
                     None \<Rightarrow> (Panic, s)
                   | Some path \<Rightarrow> (Ok path, s))
      | (r, s) \<Rightarrow> (failAs r, s))"

section \<open>Sample sub-connections\<close>

text \<open>
  A sub-connection on the session \<open>c\<close> with no features yet, whose server accepts the
  next commands and answers with the replies \<open>rs\<close>, one for each.
\<close>

definition awaitingOn :: "ServerConn \<Rightarrow> (error + int \<times> string) list \<Rightarrow> ServerSubConn" where
  "awaitingOn c rs =
     \<lparr>serverConnection = c, features = Map.empty,
      cmdResults = map (\<lambda>r. None) rs, responses = rs, sent = [], closed = []\<rparr>"

text \<open>The same on a session that has accepted and opened nothing.\<close>

definition awaiting :: "(error + int \<times> string) list \<Rightarrow> ServerSubConn" where
  "awaiting rs = awaitingOn (freshConn []) rs"

text \<open>
  The message of the multi-line reply \<open>211-Features:\<close>, \<open> MDTM\<close>, \<open> REST STREAM\<close>,
  \<open>211 End\<close>: its lines, joined by line feeds.
\<close>

definition featMessage :: string where
  "featMessage = ''Features:'' @ [CHR 0x0A] @ '' MDTM'' @ [CHR 0x0A] @ '' REST STREAM''
     @ [CHR 0x0A] @ ''End''"

section \<open>The reply to a receive command\<close>

text \<open>
  The specification's condition on the message of a 125 or 150 reply: it begins with
  an ASCII decimal integer followed by a space, and that integer is non-negative, not
  zero, and 3 modulo 4. A decimal integer is an optional sign and one or more decimal
  digits, as \<open>strconv.ParseInt\<close> reads it.
\<close>

definition beginsWithStreamID :: "string \<Rightarrow> bool" where
  "beginsWithStreamID msg =
     (\<exists>sign ds rest.
        msg = sign @ ds @ CHR '' '' # rest
        \<and> (sign = [] \<or> sign = ''+'' \<or> sign = ''-'')
        \<and> ds \<noteq> [] \<and> list_all isDigit ds
        \<and> (let i = (if sign = ''-'' then - decimalValue ds else decimalValue ds)
           in 0 \<le> i \<and> i \<noteq> 0 \<and> i mod 4 = 3))"

lemma SplitN2_two:
  "length (SplitN2 msg c) = 2 \<Longrightarrow> msg = SplitN2 msg c ! 0 @ c # SplitN2 msg c ! 1"
proof -
  assume two: "length (SplitN2 msg c) = 2"
  then have mem: "c \<in> set msg" by (auto simp: SplitN2_def split: if_splits)
  then have "dropWhile (\<lambda>x. x \<noteq> c) msg \<noteq> []" by simp
  moreover have "hd (dropWhile (\<lambda>x. x \<noteq> c) msg) = c"
    using mem hd_dropWhile [of "\<lambda>x. x \<noteq> c" msg] by auto
  ultimately have "dropWhile (\<lambda>x. x \<noteq> c) msg = c # tl (dropWhile (\<lambda>x. x \<noteq> c) msg)"
    by (cases "dropWhile (\<lambda>x. x \<noteq> c) msg") simp_all
  then have "msg = takeWhile (\<lambda>x. x \<noteq> c) msg @ c # tl (dropWhile (\<lambda>x. x \<noteq> c) msg)"
    by (metis takeWhile_dropWhile_id)
  with mem show ?thesis by (simp add: SplitN2_def)
qed

lemma ParseInt_Inr:
  "ParseInt s = Inr i \<Longrightarrow>
   \<exists>sign ds. s = sign @ ds \<and> (sign = [] \<or> sign = ''+'' \<or> sign = ''-'')
     \<and> ds \<noteq> [] \<and> list_all isDigit ds
     \<and> i = (if sign = ''-'' then - decimalValue ds else decimalValue ds)"
proof -
  assume p: "ParseInt s = Inr i"
  then have ne: "s \<noteq> []" by (auto simp: ParseInt_def)
  then obtain a r where s: "s = a # r" by (cases s) auto
  show ?thesis
  proof (cases "a = CHR ''+'' \<or> a = CHR ''-''")
    case True
    with p s have "r \<noteq> []" "list_all isDigit r"
      "i = (if a = CHR ''-'' then - decimalValue r else decimalValue r)"
      by (auto simp: ParseInt_def Let_def split: if_splits)
    with True s show ?thesis
      by (intro exI [of _ "[a]"] exI [of _ r]) auto
  next
    case False
    with p s have "list_all isDigit s" "i = decimalValue s"
      by (auto simp: ParseInt_def Let_def split: if_splits)
    with ne show ?thesis
      by (intro exI [of _ "[]"] exI [of _ s]) auto
  qed
qed

lemma accepted_begins:
  assumes "length (SplitN2 msg CHR '' '') = 2"
    and "ParseInt (SplitN2 msg CHR '' '' ! 0) = Inr i"
    and "\<not> (i < 0 \<or> i smod 4 \<noteq> 3)"
  shows "beginsWithStreamID msg"
proof -
  from assms(3) have i: "0 \<le> i" "i smod 4 = 3" by auto
  then have "i \<noteq> 0" by auto
  with i have m: "i mod 4 = 3" by (simp add: signed_modulo_int_def sgn_if)
  from ParseInt_Inr [OF assms(2)] obtain sign ds where
    sd: "SplitN2 msg CHR '' '' ! 0 = sign @ ds" "sign = [] \<or> sign = ''+'' \<or> sign = ''-''"
      "ds \<noteq> []" "list_all isDigit ds"
      "i = (if sign = ''-'' then - decimalValue ds else decimalValue ds)"
    by blast
  from SplitN2_two [OF assms(1)] sd(1)
  have "msg = sign @ ds @ CHR '' '' # SplitN2 msg CHR '' '' ! 1" by simp
  with sd i(1) m \<open>i \<noteq> 0\<close> show ?thesis
    unfolding beginsWithStreamID_def Let_def by blast
qed

text \<open>
  C2. For every reply that \<open>cmdDataReceiveStreamFrom\<close> reads after its transfer command
  (the \<open>REST\<close> exchange, if any, and the write of the command having succeeded): a
  reply whose code is neither 125 nor 150 is returned as an error carrying the code and
  the message; a 125 or 150 reply whose message does not begin with a decimal integer
  followed by a space, the integer non-negative, not zero and 3 modulo 4, is answered
  with one of the two protocol-format errors. In both cases the session is as it was
  before the call: no stream has been accepted or taken from the map.
\<close>

theorem cmdDataReceiveStreamFrom_checks_reply:
  assumes "restOffset offset subC = (Ok (), s1)"
    and "Cmd format args s1 = (Ok (), s2)"
    and "ReadResponse (-1) s2 = (Ok (code, msg), s3)"
  shows "(code \<noteq> 125 \<and> code \<noteq> 150 \<longrightarrow>
           cmdDataReceiveStreamFrom offset format args subC = (Err (TextprotoError code msg), s3))
       \<and> ((code = 125 \<or> code = 150) \<and> \<not> beginsWithStreamID msg \<longrightarrow>
            cmdDataReceiveStreamFrom offset format args subC = (Err noStreamID, s3)
            \<or> cmdDataReceiveStreamFrom offset format args subC = (Err badStreamID, s3))
       \<and> serverConnection s3 = serverConnection subC"
proof -
  have conn1: "serverConnection s1 = serverConnection subC"
    using assms(1)
    by (auto simp: restOffset_def cmd_def Cmd_def ReadResponse_def
        split: if_splits list.splits option.splits sum.splits prod.splits result.splits)
  have conn2: "serverConnection s2 = serverConnection s1"
    using assms(2) by (auto simp: Cmd_def split: list.splits option.splits)
  have conn3: "serverConnection s3 = serverConnection s2"
    using assms(3) by (auto simp: ReadResponse_def split: list.splits sum.splits if_splits)
  have other: "cmdDataReceiveStreamFrom offset format args subC = (Err (TextprotoError code msg), s3)"
    if "code \<noteq> 125" "code \<noteq> 150"
    using assms that
    by (simp add: cmdDataReceiveStreamFrom_def StatusAlreadyOpen_def StatusAboutToSend_def)
  have fmt: "cmdDataReceiveStreamFrom offset format args subC = (Err noStreamID, s3)
            \<or> cmdDataReceiveStreamFrom offset format args subC = (Err badStreamID, s3)"
    if c: "code = 125 \<or> code = 150" and nb: "\<not> beginsWithStreamID msg"
  proof (cases "length (SplitN2 msg CHR '' '') = 2")
    case False
    with assms c show ?thesis
      by (auto simp: cmdDataReceiveStreamFrom_def StatusAlreadyOpen_def StatusAboutToSend_def)
  next
    case two: True
    show ?thesis
    proof (cases "ParseInt (SplitN2 msg CHR '' '' ! 0)")
      case (Inl e)
      with assms c two show ?thesis
        by (auto simp: cmdDataReceiveStreamFrom_def StatusAlreadyOpen_def StatusAboutToSend_def)
    next
      case (Inr i)
      with two nb have "i < 0 \<or> i smod 4 \<noteq> 3"
        using accepted_begins by blast
      with assms c two Inr show ?thesis
        by (auto simp: cmdDataReceiveStreamFrom_def StatusAlreadyOpen_def StatusAboutToSend_def)
    qed
  qed
  from other fmt conn1 conn2 conn3 show ?thesis by simp
qed

theorem cmdDataReceiveStreamFrom_checks_reply_witness:
  "cmdDataReceiveStreamFrom 0 ''RETR %s'' [StringArg ''test''] (awaiting [Inr (550, ''No such file'')])
     = (Err (TextprotoError 550 ''No such file''),
        (awaiting [])\<lparr>sent := [(''RETR %s'', [StringArg ''test''])]\<rparr>)
   \<and> \<not> beginsWithStreamID ''Opening''
   \<and> (cmdDataReceiveStreamFrom 0 ''RETR %s'' [StringArg ''test''] (awaiting [Inr (150, ''Opening'')])
        = (Err noStreamID, (awaiting [])\<lparr>sent := [(''RETR %s'', [StringArg ''test''])]\<rparr>)
      \<or> cmdDataReceiveStreamFrom 0 ''RETR %s'' [StringArg ''test''] (awaiting [Inr (150, ''Opening'')])
        = (Err badStreamID, (awaiting [])\<lparr>sent := [(''RETR %s'', [StringArg ''test''])]\<rparr>))
   \<and> serverConnection ((awaiting [])\<lparr>sent := [(''RETR %s'', [StringArg ''test''])]\<rparr>)
        = serverConnection (awaiting [Inr (150, ''Opening'')])"
proof -
  let ?s3 = "(awaiting [])\<lparr>sent := [(''RETR %s'', [StringArg ''test''])]\<rparr>"
  have r: "restOffset 0 (awaiting rs) = (Ok (), awaiting rs)" for rs
    by (simp add: restOffset_def)
  have c: "Cmd ''RETR %s'' [StringArg ''test''] (awaiting [Inr x])
      = (Ok (), (awaiting [Inr x])\<lparr>cmdResults := [], sent := [(''RETR %s'', [StringArg ''test''])]\<rparr>)"
    for x
    by (simp add: Cmd_def awaiting_def awaitingOn_def)
  have rr: "ReadResponse (-1)
        ((awaiting [Inr (k, m)])\<lparr>cmdResults := [], sent := [(''RETR %s'', [StringArg ''test''])]\<rparr>)
      = (Ok (k, m), ?s3)" for k m
    by (simp add: ReadResponse_def awaiting_def awaitingOn_def codeMismatch_def)
  have nb: "\<not> beginsWithStreamID ''Opening''"
  proof
    assume "beginsWithStreamID ''Opening''"
    then obtain sign ds rest where "''Opening'' = sign @ ds @ CHR '' '' # rest"
      unfolding beginsWithStreamID_def by blast
    then have "CHR '' '' \<in> set ''Opening''" by (metis in_set_conv_decomp append.assoc)
    then show False by simp
  qed
  from cmdDataReceiveStreamFrom_checks_reply [OF r c rr, of 550 "''No such file''"]
  have a: "cmdDataReceiveStreamFrom 0 ''RETR %s'' [StringArg ''test'']
        (awaiting [Inr (550, ''No such file'')]) = (Err (TextprotoError 550 ''No such file''), ?s3)"
    by simp
  from cmdDataReceiveStreamFrom_checks_reply [OF r c rr, of 150 "''Opening''"] nb
  have b: "(cmdDataReceiveStreamFrom 0 ''RETR %s'' [StringArg ''test''] (awaiting [Inr (150, ''Opening'')])
        = (Err noStreamID, ?s3)
      \<or> cmdDataReceiveStreamFrom 0 ''RETR %s'' [StringArg ''test''] (awaiting [Inr (150, ''Opening'')])
        = (Err badStreamID, ?s3))
      \<and> serverConnection ?s3 = serverConnection (awaiting [Inr (150, ''Opening'')])"
    by simp
  from a nb b show ?thesis by blast
qed

section \<open>The stream ID in a send command\<close>

lemma SplitN2_nosep: "c \<notin> set s \<Longrightarrow> SplitN2 s c = [s]"
  by (simp add: SplitN2_def)

lemma SplitN2_sep: "c \<notin> set verb \<Longrightarrow> SplitN2 (verb @ c # rest) c = [verb, rest]"
  by (induction verb) (auto simp: SplitN2_def)

text \<open>
  C7. For every command format and every send stream that \<open>cmdDataSendStreamFrom\<close> has
  opened (the \<open>REST\<close> exchange, if any, having succeeded, and the server taking the
  command): the format handed to the control stream has the stream's ID spliced in
  after the verb. When the format is a verb, a space and arguments, the ID and a space
  are inserted after that first space; when the format has no space, a space and the ID
  are appended.
\<close>

theorem cmdDataSendStreamFrom_splices_stream_id:
  assumes "getNewDataSendStream (serverConnection subC) = (Ok stream, c)"
    and "restOffset offset (subC\<lparr>serverConnection := c\<rparr>) = (Ok (), s1)"
    and "cmdResults s1 \<noteq> []"
  shows "\<exists>f. sent (snd (cmdDataSendStreamFrom offset format args subC)) = sent s1 @ [(f, args)]
     \<and> (\<forall>verb rest. format = verb @ CHR '' '' # rest \<and> CHR '' '' \<notin> set verb \<longrightarrow>
           f = verb @ '' '' @ Itoa (StreamID stream) @ '' '' @ rest)
     \<and> (CHR '' '' \<notin> set format \<longrightarrow> f = format @ '' '' @ Itoa (StreamID stream))"
proof -
  define parts where "parts = SplitN2 format CHR '' ''"
  define f where "f = (if length parts < 2 then parts ! 0 @ '' '' @ Itoa (StreamID stream)
      else parts ! 0 @ '' '' @ Itoa (StreamID stream) @ '' '' @ parts ! 1)"
  from assms(3) obtain r rs where rs: "cmdResults s1 = r # rs" by (cases "cmdResults s1") auto
  have cmd: "Cmd f args s1 = (case r of None \<Rightarrow> Ok () | Some err \<Rightarrow> Err err,
           s1\<lparr>cmdResults := rs, sent := sent s1 @ [(f, args)]\<rparr>)"
    using rs by (simp add: Cmd_def)
  have rd: "sent (snd (ReadResponse k s)) = sent s" for k s
    by (auto simp: ReadResponse_def split: list.splits sum.splits)
  have "sent (snd (cmdDataSendStreamFrom offset format args subC)) = sent s1 @ [(f, args)]"
    using assms(1,2) cmd rd [of "-1" "s1\<lparr>cmdResults := rs, sent := sent s1 @ [(f, args)]\<rparr>"]
    by (cases r; cases "ReadResponse (-1) (s1\<lparr>cmdResults := rs, sent := sent s1 @ [(f, args)]\<rparr>)")
       (auto simp: cmdDataSendStreamFrom_def Let_def parts_def [symmetric] f_def [symmetric]
          closeStream_def split: result.splits prod.splits)
  moreover have "f = verb @ '' '' @ Itoa (StreamID stream) @ '' '' @ rest"
    if "format = verb @ CHR '' '' # rest" "CHR '' '' \<notin> set verb" for verb rest
    using that by (simp add: f_def parts_def SplitN2_sep)
  moreover have "f = format @ '' '' @ Itoa (StreamID stream)" if "CHR '' '' \<notin> set format"
    using that by (simp add: f_def parts_def SplitN2_nosep)
  ultimately show ?thesis by blast
qed

definition stream2 :: Stream where
  "stream2 = \<lparr>StreamID = 2, scanLines = [], scanErr = None\<rparr>"

theorem cmdDataSendStreamFrom_splices_stream_id_witness:
  "sent (snd (cmdDataSendStreamFrom 0 ''STOR %s'' [StringArg ''test'']
      (awaitingOn ((freshConn [])\<lparr>openResults := [Inr stream2]\<rparr>) [Inr (150, ''Ok'')])))
   = [(''STOR 2 %s'', [StringArg ''test''])]"
proof -
  let ?c = "(freshConn [])\<lparr>openResults := [Inr stream2]\<rparr>"
  let ?c' = "(freshConn [])\<lparr>openResults := [], calls := [MutexLock, OpenUniStreamSync, MutexUnlock]\<rparr>"
  let ?subC = "awaitingOn ?c [Inr (150, ''Ok'')]"
  have o: "getNewDataSendStream (serverConnection ?subC) = (Ok stream2, ?c')"
    by (simp add: getNewDataSendStream_def awaitingOn_def freshConn_def)
  have r: "restOffset 0 (?subC\<lparr>serverConnection := ?c'\<rparr>) = (Ok (), ?subC\<lparr>serverConnection := ?c'\<rparr>)"
    by (simp add: restOffset_def)
  have n: "cmdResults (?subC\<lparr>serverConnection := ?c'\<rparr>) \<noteq> []"
    by (simp add: awaitingOn_def)
  from cmdDataSendStreamFrom_splices_stream_id [OF o r n, of "''STOR %s''" "[StringArg ''test'']"]
  obtain f where f: "sent (snd (cmdDataSendStreamFrom 0 ''STOR %s'' [StringArg ''test''] ?subC))
        = sent (?subC\<lparr>serverConnection := ?c'\<rparr>) @ [(f, [StringArg ''test''])]"
    and v: "\<forall>verb rest. ''STOR %s'' = verb @ CHR '' '' # rest \<and> CHR '' '' \<notin> set verb \<longrightarrow>
           f = verb @ '' '' @ Itoa (StreamID stream2) @ '' '' @ rest"
    by blast
  from v have "''STOR %s'' = ''STOR'' @ CHR '' '' # ''%s'' \<and> CHR '' '' \<notin> set ''STOR'' \<longrightarrow>
           f = ''STOR'' @ '' '' @ Itoa (StreamID stream2) @ '' '' @ ''%s''"
    by blast
  then have "f = ''STOR 2 %s''"
    by (simp add: stream2_def Itoa_def decDigits.simps digitChar_def)
  with f show ?thesis by (simp add: awaitingOn_def)
qed

section \<open>The reply to PWD\<close>

text \<open>
  C5, at the reply \<open>257 "/incoming\<close>, whose message holds one double quote only. The
  first and the last quote are the same character, the slice \<open>msg[start+1 : end]\<close> has
  its lower bound above its upper bound, and \<open>CurrentDir\<close> panics where the claim
  promises the protocol-format error.
\<close>

theorem CurrentDir_one_quote_panics:
  "fst (CurrentDir (awaiting [Inr (257, CHR 0x22 # ''/incoming'')])) = Panic"
  by (simp add: awaiting_def awaitingOn_def CurrentDir_def cmd_def Cmd_def ReadResponse_def codeMismatch_def
      StatusPathCreated_def LastIndex_def slice_def)

text \<open>
  The three kinds of message: with no quote the error is returned, with exactly one
  \<open>CurrentDir\<close> panics, and with two or more the path between the first and the last
  is returned.
\<close>

lemma Index_absent: "c \<notin> set s \<Longrightarrow> Index s c = -1"
  by (induction s) (auto simp: Let_def)

lemma Index_first: "c \<notin> set a \<Longrightarrow> Index (a @ c # b) c = int (length a)"
  by (induction a) (auto simp: Let_def)

lemma LastIndex_absent: "c \<notin> set s \<Longrightarrow> LastIndex s c = -1"
  by (simp add: LastIndex_def Index_absent)

lemma LastIndex_last: "c \<notin> set b \<Longrightarrow> LastIndex (a @ c # b) c = int (length a)"
proof -
  assume "c \<notin> set b"
  then have "Index (rev b @ c # rev a) c = int (length b)"
    using Index_first [of c "rev b" "rev a"] by simp
  then show ?thesis by (simp add: LastIndex_def)
qed

lemma pwdReply:
  "cmd StatusPathCreated ''PWD'' [] (awaiting [Inr (257, msg)])
     = (Ok (257, msg), (awaiting [])\<lparr>sent := [(''PWD'', [])]\<rparr>)"
  by (simp add: awaiting_def awaitingOn_def cmd_def Cmd_def ReadResponse_def codeMismatch_def
      StatusPathCreated_def)

lemma CurrentDir_no_quote:
  "CHR 0x22 \<notin> set msg \<Longrightarrow> fst (CurrentDir (awaiting [Inr (257, msg)])) = Err badPwd"
  by (simp add: CurrentDir_def pwdReply Index_absent)

lemma CurrentDir_one_quote:
  assumes "CHR 0x22 \<notin> set a" and "CHR 0x22 \<notin> set b"
  shows "fst (CurrentDir (awaiting [Inr (257, a @ CHR 0x22 # b)])) = Panic"
  using assms
  by (simp add: CurrentDir_def pwdReply Index_first LastIndex_last slice_def)

lemma CurrentDir_two_quotes:
  assumes "CHR 0x22 \<notin> set a" and "CHR 0x22 \<notin> set b"
  shows "fst (CurrentDir (awaiting [Inr (257, a @ CHR 0x22 # path @ CHR 0x22 # b)])) = Ok path"
proof -
  have l: "LastIndex (a @ CHR 0x22 # path @ CHR 0x22 # b) (CHR 0x22) = int (length a + 1 + length path)"
    using LastIndex_last [of "CHR 0x22" b "a @ CHR 0x22 # path"] assms(2) by simp
  have "nat (int (length a) + 1) = Suc (length a)" by simp
  then show ?thesis
    using assms(1) l
    by (simp add: CurrentDir_def pwdReply Index_first slice_def)
qed

section \<open>The features map after FEAT\<close>

text \<open>
  C8, as the code has it. Whenever \<open>Feat\<close> reads a reply whose code is not 211, it
  returns success and leaves the features map as it was: empty when it was empty, and
  still holding the features of an earlier 211 reply otherwise.
\<close>

theorem Feat_other_code_keeps_features:
  assumes "cmd (-1) ''FEAT'' [] subC = (Ok (code, message), s)" and "code \<noteq> 211"
  shows "Feat subC = (Ok (), s) \<and> features s = features subC"
proof -
  have "features s = features subC"
    using assms(1)
    by (auto simp: cmd_def Cmd_def ReadResponse_def
        split: list.splits option.splits sum.splits if_splits)
  with assms show ?thesis by (simp add: Feat_def StatusSystem_def)
qed

theorem Feat_other_code_keeps_features_witness:
  "Feat (awaiting [Inr (502, ''Not implemented'')])
     = (Ok (), (awaiting [])\<lparr>sent := [(''FEAT'', [])]\<rparr>)
   \<and> features ((awaiting [])\<lparr>sent := [(''FEAT'', [])]\<rparr>) = Map.empty"
proof -
  have c: "cmd (-1) ''FEAT'' [] (awaiting [Inr (502, ''Not implemented'')])
      = (Ok (502, ''Not implemented''), (awaiting [])\<lparr>sent := [(''FEAT'', [])]\<rparr>)"
    by (simp add: cmd_def Cmd_def ReadResponse_def codeMismatch_def awaiting_def awaitingOn_def)
  have "(502::int) \<noteq> 211" by simp
  from Feat_other_code_keeps_features [OF c this] show ?thesis
    by (simp add: awaiting_def awaitingOn_def)
qed

text \<open>
  The claim as the specification states it (an empty map after every reply other than
  211) fails when an earlier 211 reply has filled the map: after the replies 211
  (listing MDTM and REST STREAM) and then 502, the second \<open>Feat\<close> returns success and
  the map still holds both features.
\<close>

theorem Feat_keeps_earlier_features:
  "fst (Feat (snd (Feat (awaiting [Inr (211, featMessage), Inr (502, ''Not implemented'')]))))
     = Ok ()
   \<and> responses (snd (Feat (awaiting [Inr (211, featMessage), Inr (502, ''Not implemented'')])))
     = [Inr (502, ''Not implemented'')]
   \<and> features (snd (Feat (snd (Feat
        (awaiting [Inr (211, featMessage), Inr (502, ''Not implemented'')]))))) ''MDTM''
     = Some []
   \<and> features (snd (Feat (snd (Feat
        (awaiting [Inr (211, featMessage), Inr (502, ''Not implemented'')]))))) ''REST''
     = Some ''STREAM''"
  by (simp add: awaiting_def awaitingOn_def featMessage_def Feat_def cmd_def Cmd_def ReadResponse_def
      codeMismatch_def StatusSystem_def featLine_def HasPrefix_def TrimSpace_def
      trimLeftSpace.simps trimRightSpace.simps spaceWidthEnd_def spaceWidth_def asciiSpace_def
      SplitN2_def)

section \<open>Directory entries and the listing parsers\<close>

datatype EntryType = EntryTypeFile | EntryTypeFolder | EntryTypeLink

text \<open>
  \<open>Entry\<close>. A \<open>time.Time\<close> is kept as the number of seconds since the Unix epoch; the
  zero \<open>Time\<close> is the first second of year 1.
\<close>

record Entry =
  Name :: string
  Type :: EntryType
  Size :: int
  Time :: int

definition zeroTime :: int where
  "zeroTime = -62135596800"

text \<open>The \<open>Entry\<close> a composite literal without flds makes.\<close>

definition newEntry :: Entry where
  "newEntry = \<lparr>Name = [], Type = EntryTypeFile, Size = 0, Time = zeroTime\<rparr>"

text \<open>
  What the parsers take from the Go library and the client does not decide:
  \<open>time.Parse(layout, value)\<close>, the year of \<open>time.Now()\<close>, and
  \<open>strconv.ParseUint(s, base, bitSize)\<close>, which returns a value also when it returns an
  error.
\<close>

record GoLib =
  time_Parse :: "string \<Rightarrow> string \<Rightarrow> error + int"
  thisYear :: int
  ParseUint :: "string \<Rightarrow> int \<Rightarrow> int \<Rightarrow> int \<times> error option"

text \<open>
  Indexing, which panics out of range (\<open>None\<close>). Below, \<open>flds\<close> stands for the
  source's variable \<open>fields\<close>.
\<close>

definition index :: "'a list \<Rightarrow> int \<Rightarrow> 'a option" where
  "index xs i = (if 0 \<le> i \<and> i < int (length xs) then Some (xs ! nat i) else None)"

definition orPanic :: "'a option \<Rightarrow> ('a \<Rightarrow> 'b result) \<Rightarrow> 'b result" where
  "orPanic x f = (case x of None \<Rightarrow> Panic | Some v \<Rightarrow> f v)"

definition SetSize :: "GoLib \<Rightarrow> string \<Rightarrow> Entry \<Rightarrow> Entry \<times> error option" where
  "SetSize L str e = (case ParseUint L str 0 64 of (n, err) \<Rightarrow> (e\<lparr>Size := n\<rparr>, err))"

definition timeLayout :: string where
  "timeLayout = ''_2 Jan 06 15:04 MST''"

text \<open>
  \<open>SetTime\<close>. Its callers drop the entry when it returns an error, so the result is the
  entry with its time set, or the error.
\<close>

definition SetTime :: "GoLib \<Rightarrow> string list \<Rightarrow> Entry \<Rightarrow> Entry result" where
  "SetTime L flds e =
     orPanic (index flds 2) (\<lambda>f2. orPanic (index flds 1) (\<lambda>f1. orPanic (index flds 0) (\<lambda>f0.
       let parse = (\<lambda>timeStr.
             case time_Parse L timeLayout timeStr of
               Inl err \<Rightarrow> Err err
             | Inr t \<Rightarrow> Ok (e\<lparr>Time := t\<rparr>))
       in if CHR '':'' \<in> set f2
          then orPanic (slice (Itoa (thisYear L)) 2 4) (\<lambda>yy.
                 parse (f1 @ '' '' @ f0 @ '' '' @ yy @ '' '' @ f2 @ '' GMT''))
          else if length f2 \<noteq> 4 then Err (ErrorsNew ''Invalid year format in time string'')
          else orPanic (slice f2 2 4) (\<lambda>yy.
                 parse (f1 @ '' '' @ f0 @ '' '' @ yy @ '' 00:00 GMT'')))))"

subsection \<open>RFC 3659\<close>

text \<open>The loop over the facts of a line (lines 238 to 264).\<close>

fun rfc3659Facts :: "GoLib \<Rightarrow> string list \<Rightarrow> Entry \<Rightarrow> Entry result" where
  "rfc3659Facts L [] e = Ok e"
| "rfc3659Facts L (field # flds) e =
     (let i = Index field CHR ''=''
      in if i < 1 then Err errUnsupportedListLine
         else orPanic (sliceTo field i) (\<lambda>key. orPanic (sliceFrom field (i + 1)) (\<lambda>value.
           if key = ''modify''
           then (case time_Parse L ''20060102150405'' value of
                   Inl err \<Rightarrow> Err err
                 | Inr t \<Rightarrow> rfc3659Facts L flds (e\<lparr>Time := t\<rparr>))
           else if key = ''type''
           then (if value = ''dir'' \<or> value = ''cdir'' \<or> value = ''pdir''
                 then rfc3659Facts L flds (e\<lparr>Type := EntryTypeFolder\<rparr>)
                 else if value = ''file''
                 then rfc3659Facts L flds (e\<lparr>Type := EntryTypeFile\<rparr>)
                 else rfc3659Facts L flds e)
           else if key = ''size''
           then rfc3659Facts L flds (fst (SetSize L value e))
           else rfc3659Facts L flds e)))"

definition parseRFC3659ListLine :: "GoLib \<Rightarrow> string \<Rightarrow> Entry result" where
  "parseRFC3659ListLine L line =
     (let iSemicolon = Index line CHR '';'';
          iWhitespace = Index line CHR '' ''
      in if iSemicolon < 0 \<or> iSemicolon > iWhitespace then Err errUnsupportedListLine
         else orPanic (sliceFrom line (iWhitespace + 1)) (\<lambda>name.
              orPanic (sliceTo line (iWhitespace - 1)) (\<lambda>facts.
                rfc3659Facts L (Split facts CHR '';'') (newEntry\<lparr>Name := name\<rparr>))))"

subsection \<open>UNIX ls\<close>

definition parseLsListLine :: "GoLib \<Rightarrow> string \<Rightarrow> Entry result" where
  "parseLsListLine L line =
     (let flds = Fields line
      in if length flds \<ge> 7 \<and> flds ! 1 = ''folder'' \<and> flds ! 2 = ''0''
         then orPanic (sliceFrom flds 6) (\<lambda>name. orPanic (slice flds 3 6) (\<lambda>tf.
                SetTime L tf (newEntry\<lparr>Type := EntryTypeFolder, Name := Join name '' ''\<rparr>)))
         else orPanic (index flds 1) (\<lambda>f1.
           if f1 = ''0''
           then orPanic (sliceFrom flds 7) (\<lambda>name. orPanic (index flds 2) (\<lambda>f2.
                  case SetSize L f2 (newEntry\<lparr>Type := EntryTypeFile, Name := Join name '' ''\<rparr>) of
                    (e, Some err) \<Rightarrow> Err err
                  | (e, None) \<Rightarrow> orPanic (slice flds 4 7) (\<lambda>tf. SetTime L tf e)))
           else if length flds < 9 then Err errUnsupportedListLine
           else orPanic (index flds 0) (\<lambda>f0. orPanic (index f0 0) (\<lambda>c.
             let rest = (\<lambda>e.
                   orPanic (slice flds 5 8) (\<lambda>tf.
                     case SetTime L tf e of
                       Ok e' \<Rightarrow> orPanic (sliceFrom flds 8) (\<lambda>name. Ok (e'\<lparr>Name := Join name '' ''\<rparr>))
                     | r \<Rightarrow> r))
             in if c = CHR ''-''
                then orPanic (index flds 4) (\<lambda>f4.
                       case SetSize L f4 (newEntry\<lparr>Type := EntryTypeFile\<rparr>) of
                         (e, Some err) \<Rightarrow> Err err
                       | (e, None) \<Rightarrow> rest e)
                else if c = CHR ''d'' then rest (newEntry\<lparr>Type := EntryTypeFolder\<rparr>)
                else if c = CHR ''l'' then rest (newEntry\<lparr>Type := EntryTypeLink\<rparr>)
                else Err (ErrorsNew ''Unknown entry type'')))))"

subsection \<open>MS-DOS DIR\<close>

definition dirTimeFormats :: "string list" where
  "dirTimeFormats = [''01-02-06  03:04PM'', ''2006-01-02  15:04'']"

text \<open>
  The loop over the time formats (lines 339 to 345), from the values \<open>e.Time\<close>, \<open>err\<close>
  and \<open>line\<close> have when it starts a round to those they have when it ends.
\<close>

fun dirTime :: "GoLib \<Rightarrow> string list \<Rightarrow> int \<times> error option \<times> string
    \<Rightarrow> (int \<times> error option \<times> string) result" where
  "dirTime L [] st = Ok st"
| "dirTime L (format # formats) (t, err, line) =
     orPanic (sliceTo line (int (length format))) (\<lambda>v.
       case time_Parse L format v of
         Inr t' \<Rightarrow> orPanic (sliceFrom line (int (length format))) (\<lambda>line'. Ok (t', None, line'))
       | Inl err' \<Rightarrow> dirTime L formats (zeroTime, Some err', line))"

definition parseDirListLine :: "GoLib \<Rightarrow> string \<Rightarrow> Entry result" where
  "parseDirListLine L line0 =
     (case dirTime L dirTimeFormats (zeroTime, None, line0) of
        Ok (t, Some err, line1) \<Rightarrow> Err errUnsupportedListLine
      | Ok (t, None, line1) \<Rightarrow>
          (let e = newEntry\<lparr>Time := t\<rparr>;
               line = TrimLeft line1 CHR '' ''
           in if HasPrefix line ''<DIR>''
              then Ok (e\<lparr>Type := EntryTypeFolder,
                         Name := TrimLeft (TrimPrefix line ''<DIR>'') CHR '' ''\<rparr>)
              else
                let space = Index line CHR '' ''
                in if space = -1 then Err errUnsupportedListLine
                   else orPanic (sliceTo line space) (\<lambda>digits.
                     case ParseUint L digits 10 64 of
                       (n, Some err) \<Rightarrow> Err errUnsupportedListLine
                     | (n, None) \<Rightarrow>
                         orPanic (sliceFrom line space) (\<lambda>line2.
                           Ok (e\<lparr>Size := n, Type := EntryTypeFile,
                                 Name := TrimLeft line2 CHR '' ''\<rparr>))))
      | r \<Rightarrow> failAs r)"

subsection \<open>parseListLine and List\<close>

definition listLineParsers :: "GoLib \<Rightarrow> (string \<Rightarrow> Entry result) list" where
  "listLineParsers L = [parseRFC3659ListLine L, parseLsListLine L, parseDirListLine L]"

text \<open>The loop of \<open>parseListLine\<close> over the parsers.\<close>

fun tryParsers :: "(string \<Rightarrow> Entry result) list \<Rightarrow> string \<Rightarrow> Entry result" where
  "tryParsers [] line = Err errUnsupportedListLine"
| "tryParsers (f # fs) line =
     (case f line of
        Err err \<Rightarrow> if err = errUnsupportedListLine then tryParsers fs line else Err err
      | r \<Rightarrow> r)"

definition parseListLine :: "GoLib \<Rightarrow> string \<Rightarrow> Entry result" where
  "parseListLine L line = tryParsers (listLineParsers L) line"

text \<open>The scanner loop of \<open>List\<close> (lines 423 to 429): \<open>entries\<close> as the lines go by.\<close>

fun scanEntries :: "GoLib \<Rightarrow> string list \<Rightarrow> Entry list \<Rightarrow> Entry list result" where
  "scanEntries L [] entries = Ok entries"
| "scanEntries L (line # lines) entries =
     (case parseListLine L line of
        Ok entry \<Rightarrow> scanEntries L lines (entries @ [entry])
      | Err err \<Rightarrow> scanEntries L lines entries
      | r \<Rightarrow> failAs r)"

text \<open>What \<open>List\<close> returns once it has its stream (lines 422 to 433).\<close>

definition listEntries :: "GoLib \<Rightarrow> Stream \<Rightarrow> Entry list result" where
  "listEntries L conn =
     (case scanEntries L (scanLines conn) [] of
        Ok entries \<Rightarrow> (case scanErr conn of Some err \<Rightarrow> Err err | None \<Rightarrow> Ok entries)
      | r \<Rightarrow> r)"

text \<open>
  \<open>List\<close>: the deferred \<open>ReadResponse\<close> runs when the function ends, and its result is
  dropped.
\<close>

definition List :: "GoLib \<Rightarrow> string \<Rightarrow> ServerSubConn \<Rightarrow> Entry list result \<times> ServerSubConn" where
  "List L path subC =
     (case cmdDataReceiveStreamFrom 0 ''LIST %s'' [StringArg path] subC of
        (Ok conn, s) \<Rightarrow>
          (case ReadResponse StatusClosingDataConnection s of
             (Blocked, s') \<Rightarrow> (Blocked, s')
           | (r, s') \<Rightarrow> (listEntries L conn, s'))
      | (r, s) \<Rightarrow> (failAs r, s))"

section \<open>The order of the listing parsers\<close>











section \<open>Short lines in the ls parser\<close>

text \<open>
  C6, at the empty line. It has no fields, so the first test fails on the length, and
  the second test reads \<open>fields[1]\<close> out of range: \<open>parseLsListLine\<close> panics where the
  claim promises the unsupported-line error. The same holds for every line of fewer
  than two fields.
\<close>

theorem parseLsListLine_empty_line_panics:
  "parseLsListLine L [] = Panic"
  by (simp add: parseLsListLine_def Fields_def fieldsFrom.simps orPanic_def index_def)

lemma parseLsListLine_one_field_panics:
  "length (Fields line) < 2 \<Longrightarrow> parseLsListLine L line = Panic"
  by (simp add: parseLsListLine_def orPanic_def index_def)

text \<open>From two fields on, a line below nine fields that is neither variant is unsupported.\<close>

lemma parseLsListLine_short_unsupported:
  "2 \<le> length (Fields line) \<Longrightarrow> length (Fields line) < 9 \<Longrightarrow>
   Fields line ! 1 \<noteq> ''folder'' \<Longrightarrow> Fields line ! 1 \<noteq> ''0'' \<Longrightarrow>
   parseLsListLine L line = Err errUnsupportedListLine"
  by (simp add: parseLsListLine_def orPanic_def index_def)

lemma parseListLine_empty_line_panics:
  "parseListLine L [] = Panic"
  by (simp add: parseListLine_def listLineParsers_def parseRFC3659ListLine_def
      parseLsListLine_def Fields_def fieldsFrom.simps orPanic_def index_def)

section \<open>Collecting the results of a parallel transfer\<close>

text \<open>The \<open>Error()\<close> method: the message of an error. \<open>*textproto.Error\<close> prints \<open>%03d %s\<close>.\<close>

definition zeroPad :: "nat \<Rightarrow> string \<Rightarrow> string" where
  "zeroPad w ds = replicate (w - length ds) CHR ''0'' @ ds"

fun Error :: "error \<Rightarrow> string" where
  "Error (ErrorsNew msg) = msg"
| "Error (TextprotoError code msg) =
     (if code < 0 then CHR ''-'' # zeroPad 2 (decDigits (- code)) else zeroPad 3 (decDigits code))
     @ '' '' @ msg"
| "Error (LibraryError msg) = msg"
| "Error errUnsupportedListLine = ''Unsupported LIST line''"

text \<open>
  The result a worker sends when it gives up before its first task (\<open>parallelTransfer\<close>,
  lines 41, 57 and 63): the error it met, behind the words \<open>Go routine reset.\<close> and a
  space.
\<close>

definition goRoutineReset :: "error \<Rightarrow> error" where
  "goRoutineReset err = ErrorsNew (''Go routine reset. '' @ Error err)"

text \<open>The variables of the collecting loop of \<open>MultipleTransfer\<close> (lines 253 to 263).\<close>

record Collector =
  normalReplay :: int
  goRoutineResetReply :: int
  errorMessage :: string

text \<open>One round of the loop: its body on the result received, then \<open>normalReplay++\<close>.\<close>

definition collectReplay :: "error option \<Rightarrow> Collector \<Rightarrow> Collector" where
  "collectReplay replay st =
     (let st1 =
        (case replay of
           None \<Rightarrow> st
         | Some err \<Rightarrow>
             let st' = st\<lparr>errorMessage := errorMessage st @ [CHR 0x0A] @ Error err\<rparr>
             in if HasPrefix ''Go routine reset.'' (Error err)
                then st'\<lparr>goRoutineResetReply := goRoutineResetReply st' + 1\<rparr>
                else st')
      in st1\<lparr>normalReplay := normalReplay st1 + 1\<rparr>)"

text \<open>
  The loop, for \<open>len(tasks)\<close>, \<open>nrParallel\<close> and the results in the order the channel
  delivers them; a receive from the channel when nothing more comes waits for ever.
\<close>

fun collectLoop :: "int \<Rightarrow> int \<Rightarrow> error option list \<Rightarrow> Collector \<Rightarrow> Collector result" where
  "collectLoop lenTasks nrParallel [] st =
     (if normalReplay st < lenTasks \<and> goRoutineResetReply st < nrParallel then Blocked
      else Ok st)"
| "collectLoop lenTasks nrParallel (replay # returnChannel) st =
     (if normalReplay st < lenTasks \<and> goRoutineResetReply st < nrParallel
      then collectLoop lenTasks nrParallel returnChannel (collectReplay replay st)
      else Ok st)"

text \<open>The end of \<open>MultipleTransfer\<close> (lines 253 to 268): collect, then return.\<close>

definition collectReplies :: "int \<Rightarrow> int \<Rightarrow> error option list \<Rightarrow> unit result" where
  "collectReplies lenTasks nrParallel returnChannel =
     (case collectLoop lenTasks nrParallel returnChannel
             \<lparr>normalReplay = 0, goRoutineResetReply = 0, errorMessage = []\<rparr> of
        Ok st \<Rightarrow> if errorMessage st = [] then Ok () else Err (ErrorsNew (errorMessage st))
      | r \<Rightarrow> failAs r)"

text \<open>
  C3, at the result of a worker that gave up. Its message starts with
  \<open>Go routine reset.\<close>, yet the loop does not count it: the test
  \<open>strings.HasPrefix("Go routine reset.", replay.Error())\<close> has its arguments the wrong
  way round and asks whether the message is a prefix of the literal, which a message
  longer than the literal never is.
\<close>

theorem reset_result_not_counted:
  "HasPrefix (Error (goRoutineReset err)) ''Go routine reset.''
   \<and> goRoutineResetReply (collectReplay (Some (goRoutineReset err)) st) = goRoutineResetReply st"
  by (simp add: goRoutineReset_def HasPrefix_def collectReplay_def)

text \<open>
  Two tasks, two workers, and the second worker gives up at login: the loop ends after
  two results with its reset counter still 0.
\<close>

lemma collectLoop_reset_example:
  "collectLoop 2 2 [Some (goRoutineReset (LibraryError ''EOF'')), None, None]
     \<lparr>normalReplay = 0, goRoutineResetReply = 0, errorMessage = []\<rparr>
   = Ok \<lparr>normalReplay = 2, goRoutineResetReply = 0,
         errorMessage = CHR 0x0A # ''Go routine reset. EOF''\<rparr>"
  by (simp add: goRoutineReset_def HasPrefix_def collectReplay_def)

text \<open>What the loop does count: a message that the literal starts with.\<close>

lemma prefix_of_literal_counted:
  "goRoutineResetReply (collectReplay (Some (ErrorsNew ''Go routine'')) st)
     = goRoutineResetReply st + 1"
  by (simp add: HasPrefix_def collectReplay_def)

end
